theory Spec2Isabelle
  imports Complex_Main "HOL-Library.Char_ord" "HOL-Library.List_Lexorder"
    "HOL-Library.Product_Lexorder"
begin

section \<open>Agentic Video RAG: the pipeline engine and its orchestration contract\<close>

text \<open>
  A shallow embedding of \<^verbatim>\<open>agentic_video_rag\<close>: \<^verbatim>\<open>utils.py\<close>, \<^verbatim>\<open>adapters.py\<close>,
  \<^verbatim>\<open>orchestrator_contract.py\<close>, \<^verbatim>\<open>orchestrator_runtime.py\<close>, \<^verbatim>\<open>stores.py\<close> and
  \<^verbatim>\<open>pipeline.py\<close>.

  Conventions of the embedding.
  \<^item> Python \<^verbatim>\<open>str\<close> is \<open>string\<close>; the case mapping and the whitespace and word classes
    are the ASCII ones.
  \<^item> Python \<^verbatim>\<open>int\<close> is \<open>int\<close>.
  \<^item> Python \<^verbatim>\<open>float\<close> is \<open>rat\<close>: the literals are read as the decimal fractions that
    are written, comparisons are exact, and arithmetic is the exact one.
  \<^item> A raised exception is the \<open>Inl\<close> of a sum; a mutated object is passed in and
    returned.
  \<^item> A \<^verbatim>\<open>dict\<close> whose iteration order is observable is an association list in
    insertion order.
\<close>

subsection \<open>Strings\<close>

datatype error = ValueError string | KeyError string | IndexError

definition lower_char :: "char \<Rightarrow> char" where
  "lower_char c =
     (case map_of (zip ''ABCDEFGHIJKLMNOPQRSTUVWXYZ'' ''abcdefghijklmnopqrstuvwxyz'') c of
        None \<Rightarrow> c | Some l \<Rightarrow> l)"

definition lower :: "string \<Rightarrow> string" where
  "lower s = map lower_char s"

definition is_space :: "char \<Rightarrow> bool" where
  "is_space c = (c \<in> set [CHR '' '', CHR 0x09, CHR 0x0A, CHR 0x0B, CHR 0x0C, CHR 0x0D])"

definition strip :: "string \<Rightarrow> string" where
  "strip s = rev (dropWhile is_space (rev (dropWhile is_space s)))"

fun startswith :: "string \<Rightarrow> string \<Rightarrow> bool" where
  "startswith s [] = True"
| "startswith [] (p # ps) = False"
| "startswith (c # cs) (p # ps) = (c = p \<and> startswith cs ps)"

text \<open>\<^verbatim>\<open>needle in haystack\<close> on strings.\<close>

fun contains :: "string \<Rightarrow> string \<Rightarrow> bool" where
  "contains [] needle = (needle = [])"
| "contains (c # cs) needle = (startswith (c # cs) needle \<or> contains cs needle)"

text \<open>\<^verbatim>\<open>s.replace(",", " and ")\<close>: every comma becomes the five characters.\<close>

definition replace_comma :: "string \<Rightarrow> string" where
  "replace_comma s = concat (map (\<lambda>c. if c = CHR '','' then '' and '' else [c]) s)"

text \<open>
  \<^verbatim>\<open>s.split(sep)\<close> for a non-empty separator: \<open>split_go sep cur k s\<close> scans \<open>s\<close> with the
  piece read so far in \<open>cur\<close>; after a match the remaining \<open>k\<close> characters of the
  separator are skipped.
\<close>

fun split_go :: "string \<Rightarrow> string \<Rightarrow> nat \<Rightarrow> string \<Rightarrow> string list" where
  "split_go sep cur k [] = [cur]"
| "split_go sep cur (Suc k) (c # cs) = split_go sep cur k cs"
| "split_go sep cur 0 (c # cs) =
     (if startswith (c # cs) sep then cur # split_go sep [] (length sep - 1) cs
      else split_go sep (cur @ [c]) 0 cs)"

definition split :: "string \<Rightarrow> string \<Rightarrow> string list" where
  "split s sep = split_go sep [] 0 s"

text \<open>\<^verbatim>\<open>sep.join(parts)\<close>.\<close>

fun join :: "string \<Rightarrow> string list \<Rightarrow> string" where
  "join sep [] = []"
| "join sep [x] = x"
| "join sep (x # y # ys) = x @ sep @ join sep (y # ys)"

subsection \<open>\<^verbatim>\<open>QueryDecomposer\<close>\<close>

definition decompose :: "string \<Rightarrow> string list" where
  "decompose query_text =
     (let normalized = replace_comma query_text;
          parts = filter (\<lambda>p. p \<noteq> []) (map strip (split normalized '' and ''))
      in if parts = [] then [query_text]
         else query_text # filter (\<lambda>part. lower part \<noteq> lower query_text) parts)"

text \<open>
  The lookup \<^verbatim>\<open>variants[min(attempt, len(variants) - 1)]\<close> of stage 3, with Python's
  indexing: a negative index counts from the end, an index out of range raises.
\<close>

definition py_index :: "'a list \<Rightarrow> int \<Rightarrow> error + 'a" where
  "py_index xs i =
     (if 0 \<le> i \<and> i < int (length xs) then Inr (xs ! nat i)
      else if i < 0 \<and> - int (length xs) \<le> i then Inr (xs ! nat (int (length xs) + i))
      else Inl IndexError)"

definition query_variant :: "string list \<Rightarrow> nat \<Rightarrow> error + string" where
  "query_variant variants attempt =
     py_index variants (min (int attempt) (int (length variants) - 1))"

subsection \<open>\<^verbatim>\<open>utils.py\<close>\<close>

definition is_word_char :: "char \<Rightarrow> bool" where
  "is_word_char c =
     ((CHR ''a'' \<le> c \<and> c \<le> CHR ''z'') \<or> (CHR ''0'' \<le> c \<and> c \<le> CHR ''9'') \<or> c = CHR ''_'')"

text \<open>
  \<^verbatim>\<open>WORD_RE.findall\<close> for \<^verbatim>\<open>[a-z0-9_]+\<close>: the maximal runs of word characters, from
  left to right; \<open>cur\<close> is the run being read.
\<close>

fun findall_words :: "string \<Rightarrow> string \<Rightarrow> string list" where
  "findall_words cur [] = (if cur = [] then [] else [cur])"
| "findall_words cur (c # cs) =
     (if is_word_char c then findall_words (cur @ [c]) cs
      else if cur = [] then findall_words [] cs
      else cur # findall_words [] cs)"

definition tokenize :: "string \<Rightarrow> string list" where
  "tokenize text =
     (let normalized = map (\<lambda>c. if c = CHR ''_'' \<or> c = CHR ''-'' then CHR '' '' else c) (lower text)
      in findall_words [] normalized)"

text \<open>\<^verbatim>\<open>str(n)\<close> for an integer.\<close>

fun str_nat :: "nat \<Rightarrow> string" where
  "str_nat n =
     (if n < 10 then [''0123456789'' ! n] else str_nat (n div 10) @ [''0123456789'' ! (n mod 10)])"

definition str_int :: "int \<Rightarrow> string" where
  "str_int i = (if i < 0 then CHR ''-'' # str_nat (nat (- i)) else str_nat (nat i))"

text \<open>
  \<^verbatim>\<open>stable_id(prefix, *parts)\<close>: the parts, already converted by \<^verbatim>\<open>str\<close>, are joined by
  a bar, hashed, and the first ten hexadecimal digits are kept. The hexadecimal SHA-1
  digest of \<^verbatim>\<open>hashlib\<close> is the parameter \<open>sha1\<close>.
\<close>

definition stable_id :: "(string \<Rightarrow> string) \<Rightarrow> string \<Rightarrow> string list \<Rightarrow> string" where
  "stable_id sha1 pre parts = pre @ ''_'' @ take 10 (sha1 (join ''|'' parts))"


definition mean :: "rat list \<Rightarrow> rat" where
  "mean vals = (if vals = [] then 0 else sum_list vals / of_nat (length vals))"




subsection \<open>\<^verbatim>\<open>types.py\<close>\<close>

datatype EntityType = Object | Person

datatype RouteId = meta_sync | sig_ex_adaptive | cv_state | bg_motion_trigger

datatype CameraType = Static | Moving

datatype Location = Exterior | Interior

record FrameObservation =
  timestamp :: int
  objects :: "string list"
  actions :: "string list"
  background_motion :: rat

text \<open>
  \<^verbatim>\<open>Clip.metadata\<close> is a \<^verbatim>\<open>dict[str, object]\<close> of which two keys are read:
  \<open>has_motion_vectors\<close> is the truth value of the entry of that name (false when it is
  absent), and \<open>active_windows\<close> is the entry of that name when it is a list, each
  element being a \<^verbatim>\<open>dict\<close> with optional integer entries \<^verbatim>\<open>t_start\<close> and \<^verbatim>\<open>t_end\<close>, or
  something that is not a \<^verbatim>\<open>dict\<close>.
\<close>

datatype RawWindow = NotADict | RawDict "int option" "int option"

record Metadata =
  has_motion_vectors :: bool
  active_windows :: "RawWindow list option"

record Clip =
  clip_id :: string
  camera_id :: string
  camera_type :: CameraType
  location :: Location
  duration_seconds :: int
  frames :: "FrameObservation list"
  metadata :: Metadata

record QueryRequest =
  query_id :: string
  query_text :: string
  clips :: "Clip list"
  camera_topology :: "string \<rightharpoonup> string list"


record 'v KeyframeRecord =
  kf_frame_id :: string
  kf_window_id :: string
  kf_clip_id :: string
  kf_camera_id :: string
  kf_timestamp :: int
  kf_embedding :: 'v
  kf_embedding_id :: string
  kf_semantic_tokens :: "string list"
  kf_route_id :: RouteId

record 'v WindowFeatures =
  wf_window_id :: string
  wf_clip_id :: string
  wf_camera_id :: string
  wf_t_start :: int
  wf_t_end :: int
  wf_pooled_embedding :: 'v
  wf_per_timestep_embeddings :: "'v list"
  wf_semantic_tokens :: "string list"


record Tracklet =
  tr_track_id :: string
  tr_clip_id :: string
  tr_camera_id :: string
  tr_window_id :: string
  tr_entity_type :: EntityType
  tr_label :: string
  tr_t_start :: int
  tr_t_end :: int
  tr_mask_confidence :: rat
  tr_overlay_uri :: string

record EntityLink =
  el_entity_id :: string
  el_entity_type :: EntityType
  el_label :: string
  el_track_ids :: "string list"
  el_confidence :: rat
  el_resolved :: bool

record TemporalSegment =
  seg_segment_id :: string
  seg_clip_id :: string
  seg_camera_id :: string
  seg_track_id :: string
  seg_action :: string
  seg_t_start :: int
  seg_t_end :: int
  seg_confidence :: rat
  seg_failure_flags :: "string list"

record EvidenceRef =
  ev_clip_id :: string
  ev_camera_id :: string
  ev_frame_range :: "int \<times> int"
  ev_overlay_uri :: string
  ev_embedding_id :: string
  ev_model_version :: string

datatype PropValue = PStr string | PFloat rat | PBool bool

record GraphNode =
  node_id :: string
  node_type :: string
  properties :: "(string \<times> PropValue) list"

datatype EdgeType = EXITS | MOVES_TO

record GraphEdge =
  ge_edge_id :: string
  ge_edge_type :: EdgeType
  ge_source_id :: string
  ge_target_id :: string
  ge_t_start :: int
  ge_t_end :: int
  ge_camera_id :: string
  ge_confidence :: rat
  ge_evidence_refs :: "EvidenceRef list"

record ClaimRecord =
  cl_claim_id :: string
  cl_text :: string
  cl_entity_ids :: "string list"
  cl_camera_id :: string
  cl_t_start :: int
  cl_t_end :: int
  cl_confidence :: rat
  cl_evidence_refs :: "EvidenceRef list"

record SynthesisOutput =
  summary :: string
  claims :: "ClaimRecord list"
  evidence_appendix :: "string list"
  redacted_claim_count :: nat

subsection \<open>Dictionaries in insertion order\<close>

text \<open>
  \<^verbatim>\<open>d[k] = v\<close>: an existing key keeps its place, a new key goes to the end.
\<close>

fun dict_set :: "('k \<times> 'a) list \<Rightarrow> 'k \<Rightarrow> 'a \<Rightarrow> ('k \<times> 'a) list" where
  "dict_set [] k v = [(k, v)]"
| "dict_set ((k', v') # d) k v = (if k' = k then (k', v) # d else (k', v') # dict_set d k v)"

definition dict_get :: "('k \<times> 'a) list \<Rightarrow> 'k \<Rightarrow> 'a option" where
  "dict_get d k = map_of d k"

text \<open>\<^verbatim>\<open>d.setdefault(k, []).append(v)\<close>.\<close>

fun setdefault_append :: "('k \<times> 'a list) list \<Rightarrow> 'k \<Rightarrow> 'a \<Rightarrow> ('k \<times> 'a list) list" where
  "setdefault_append [] k v = [(k, [v])]"
| "setdefault_append ((k', vs) # d) k v =
     (if k' = k then (k', vs @ [v]) # d else (k', vs) # setdefault_append d k v)"


subsection \<open>\<^verbatim>\<open>_contiguous_spans\<close> and \<^verbatim>\<open>TriggerRouter\<close>\<close>

text \<open>
  The loop of \<^verbatim>\<open>_contiguous_spans\<close> over \<^verbatim>\<open>sorted_ts[1:]\<close>, with the open span
  \<open>(start, fin)\<close> and the spans closed so far.
\<close>

fun spans_loop :: "int \<Rightarrow> int \<Rightarrow> (int \<times> int) list \<Rightarrow> int list \<Rightarrow> (int \<times> int) list" where
  "spans_loop start fin spans [] = spans @ [(start, fin)]"
| "spans_loop start fin spans (v # vs) =
     (if v = fin + 1 then spans_loop start v spans vs
      else spans_loop v v (spans @ [(start, fin)]) vs)"

definition contiguous_spans :: "int list \<Rightarrow> (int \<times> int) list" where
  "contiguous_spans timestamps =
     (if timestamps = [] then []
      else case sort (remdups timestamps) of
             [] \<Rightarrow> []
           | first # others \<Rightarrow> spans_loop first first [] others)"

definition choose_route :: "Clip \<Rightarrow> RouteId" where
  "choose_route clip =
     (if has_motion_vectors (metadata clip) then meta_sync
      else if camera_type clip = Moving then sig_ex_adaptive
      else if mean (map background_motion (frames clip)) > 55 / 100 then bg_motion_trigger
      else cv_state)"

text \<open>
  The windows that a \<^verbatim>\<open>meta_sync\<close> clip declares: an entry that is not a \<^verbatim>\<open>dict\<close> is
  skipped, \<^verbatim>\<open>t_start\<close> defaults to 0 and \<^verbatim>\<open>t_end\<close> to the start.
\<close>

fun metadata_windows :: "RawWindow list \<Rightarrow> (int \<times> int \<times> string) list" where
  "metadata_windows [] = []"
| "metadata_windows (NotADict # raws) = metadata_windows raws"
| "metadata_windows (RawDict s e # raws) =
     (let start = (case s of None \<Rightarrow> 0 | Some v \<Rightarrow> v);
          fin = (case e of None \<Rightarrow> start | Some v \<Rightarrow> v)
      in (start, fin, ''metadata_window'') # metadata_windows raws)"

definition has_semantic_signal :: "FrameObservation \<Rightarrow> bool" where
  "has_semantic_signal frame =
     (actions frame \<noteq> []
      \<or> (\<exists>token \<in> set [''suv'', ''person'', ''vehicle'', ''car'', ''truck''].
            contains (lower (join '' '' (objects frame))) token))"

definition meaningful :: "RouteId \<Rightarrow> FrameObservation \<Rightarrow> bool" where
  "meaningful route_id frame =
     (if route_id = bg_motion_trigger
      then has_semantic_signal frame \<and> background_motion frame > 4 / 10
      else if route_id = cv_state then has_semantic_signal frame
      else has_semantic_signal frame)"

definition activity_windows :: "Clip \<Rightarrow> RouteId \<Rightarrow> (int \<times> int \<times> string) list" where
  "activity_windows clip route_id =
     (let active_timestamps = map timestamp (filter (meaningful route_id) (frames clip))
      in map (\<lambda>(start, fin). (start, fin, ''activity_detected''))
             (contiguous_spans active_timestamps))"

definition extract_active_windows :: "Clip \<Rightarrow> RouteId \<Rightarrow> (int \<times> int \<times> string) list" where
  "extract_active_windows clip route_id =
     (if route_id = meta_sync
      then (case active_windows (metadata clip) of
              None \<Rightarrow> activity_windows clip route_id
            | Some predefined \<Rightarrow>
                if predefined \<noteq> [] \<and> metadata_windows predefined \<noteq> []
                then metadata_windows predefined
                else activity_windows clip route_id)
      else activity_windows clip route_id)"

text \<open>
  The semantic tokens that stage 1 collects from a frame:
  \<^verbatim>\<open>tokenize(" ".join([*frame.objects, *frame.actions]))\<close>.
\<close>

definition frame_tokens :: "FrameObservation \<Rightarrow> string list" where
  "frame_tokens frame = tokenize (join '' '' (objects frame @ actions frame))"

subsection \<open>\<^verbatim>\<open>ReIDResolver\<close>\<close>

text \<open>The grouping loop shared by \<^verbatim>\<open>_resolve_object_links\<close> and \<^verbatim>\<open>_resolve_person_links\<close>.\<close>

definition group_by_label :: "EntityType \<Rightarrow> Tracklet list \<Rightarrow> (string \<times> Tracklet list) list" where
  "group_by_label etype tracklets =
     foldl (\<lambda>grouped tracklet.
              if tr_entity_type tracklet \<noteq> etype then grouped
              else setdefault_append grouped (lower (tr_label tracklet)) tracklet)
           [] tracklets"

definition resolve_object_links :: "(string \<Rightarrow> string) \<Rightarrow> Tracklet list \<Rightarrow> EntityLink list" where
  "resolve_object_links sha1 tracklets =
     map (\<lambda>(label, items).
            \<lparr>el_entity_id = stable_id sha1 ''OBJ'' [label],
             el_entity_type = Object,
             el_label = label,
             el_track_ids = sort (map tr_track_id items),
             el_confidence = 83 / 100,
             el_resolved = True\<rparr>)
         (group_by_label Object tracklets)"

text \<open>\<^verbatim>\<open>camera_topology.get(camera, tuple())\<close>.\<close>

definition topology_get :: "(string \<rightharpoonup> string list) \<Rightarrow> string \<Rightarrow> string list" where
  "topology_get topo camera = (case topo camera of None \<Rightarrow> [] | Some ns \<Rightarrow> ns)"

text \<open>
  The loop over \<^verbatim>\<open>zip(sorted_items, sorted_items[1:])\<close> with its state
  \<open>(resolved, confidence)\<close>; \<^verbatim>\<open>continue\<close> goes on with the rest, \<^verbatim>\<open>break\<close> returns.
\<close>

fun walk_pairs ::
  "(string \<rightharpoonup> string list) \<Rightarrow> int \<Rightarrow> bool \<times> rat \<Rightarrow> (Tracklet \<times> Tracklet) list \<Rightarrow> bool \<times> rat" where
  "walk_pairs topo max_travel st [] = st"
| "walk_pairs topo max_travel st ((prev, cur) # rest) =
     (if tr_camera_id prev = tr_camera_id cur then walk_pairs topo max_travel st rest
      else let neighbors = topology_get topo (tr_camera_id prev);
               travel_time = max 0 (tr_t_start cur - tr_t_end prev)
           in if tr_camera_id cur \<notin> set neighbors \<and> travel_time > max_travel
              then (False, 46 / 100)
              else walk_pairs topo max_travel st rest)"

definition resolve_person_links ::
  "(string \<Rightarrow> string) \<Rightarrow> Tracklet list \<Rightarrow> (string \<rightharpoonup> string list) \<Rightarrow> int \<Rightarrow> EntityLink list" where
  "resolve_person_links sha1 tracklets topo max_travel =
     map (\<lambda>(label, items).
            let sorted_items = sort_key (\<lambda>item. (tr_t_start item, tr_camera_id item)) items;
                (resolved, confidence) =
                   walk_pairs topo max_travel (True, 87 / 100) (zip sorted_items (tl sorted_items))
            in \<lparr>el_entity_id = stable_id sha1 ''PER'' [label],
                el_entity_type = Person,
                el_label = label,
                el_track_ids = sort (map tr_track_id sorted_items),
                el_confidence = confidence,
                el_resolved = resolved\<rparr>)
         (group_by_label Person tracklets)"

definition resolve ::
  "(string \<Rightarrow> string) \<Rightarrow> Tracklet list \<Rightarrow> (string \<rightharpoonup> string list) \<Rightarrow> int \<Rightarrow> EntityLink list" where
  "resolve sha1 tracklets topo max_travel =
     resolve_object_links sha1 tracklets @ resolve_person_links sha1 tracklets topo max_travel"

subsection \<open>\<^verbatim>\<open>TemporalGroundingAdapter\<close>\<close>

text \<open>
  The loop of \<^verbatim>\<open>_extract_spans\<close> over \<^verbatim>\<open>zip(timestamps, scores)\<close>. Its state is
  \<open>(in_span, current_start, current_scores, spans)\<close>.
\<close>

type_synonym span_state = "bool \<times> int \<times> rat list \<times> (int \<times> int \<times> rat) list"

fun spans_walk :: "rat \<Rightarrow> rat \<Rightarrow> span_state \<Rightarrow> (int \<times> rat) list \<Rightarrow> span_state" where
  "spans_walk high low st [] = st"
| "spans_walk high low (in_span, current_start, current_scores, spans) ((ts, score) # rest) =
     (if \<not> in_span \<and> score \<ge> high
      then spans_walk high low (True, ts, [score], spans) rest
      else if in_span
        then (if score \<ge> low
              then spans_walk high low
                     (True, current_start, current_scores @ [score], spans) rest
              else spans_walk high low
                     (False, current_start, [],
                      spans @ [(current_start, ts, mean current_scores)]) rest)
        else spans_walk high low (in_span, current_start, current_scores, spans) rest)"

definition extract_spans ::
  "int list \<Rightarrow> rat list \<Rightarrow> rat \<Rightarrow> rat \<Rightarrow> (int \<times> int \<times> rat) list" where
  "extract_spans timestamps scores high low =
     (if timestamps = [] \<or> scores = [] then []
      else case spans_walk high low (False, hd timestamps, [], []) (zip timestamps scores) of
             (in_span, current_start, current_scores, spans) \<Rightarrow>
               if in_span
               then spans @ [(current_start, last timestamps, mean current_scores)]
               else spans)"




subsection \<open>Orchestration contract and runtime\<close>

datatype StageId = stage_1 | stage_2 | stage_3 | stage_4 | stage_5 | stage_6 | stage_7

fun TRANSITION_GRAPH :: "StageId \<Rightarrow> StageId set" where
  "TRANSITION_GRAPH stage_1 = {stage_2}"
| "TRANSITION_GRAPH stage_2 = {stage_2, stage_3}"
| "TRANSITION_GRAPH stage_3 = {stage_3, stage_4}"
| "TRANSITION_GRAPH stage_4 = {stage_4, stage_5}"
| "TRANSITION_GRAPH stage_5 = {stage_5, stage_6}"
| "TRANSITION_GRAPH stage_6 = {stage_6, stage_7}"
| "TRANSITION_GRAPH stage_7 = {}"

fun stage_str :: "StageId \<Rightarrow> string" where
  "stage_str stage_1 = ''stage_1''"
| "stage_str stage_2 = ''stage_2''"
| "stage_str stage_3 = ''stage_3''"
| "stage_str stage_4 = ''stage_4''"
| "stage_str stage_5 = ''stage_5''"
| "stage_str stage_6 = ''stage_6''"
| "stage_str stage_7 = ''stage_7''"

record OrchestratorContract =
  required_state_keys :: "string list"
  branching_hooks :: "string list"

definition can_transition :: "OrchestratorContract \<Rightarrow> StageId \<Rightarrow> StageId \<Rightarrow> bool" where
  "can_transition contract current_stage next_stage =
     (next_stage \<in> TRANSITION_GRAPH current_stage)"

record TransitionEvent =
  from_stage :: StageId
  to_stage :: StageId
  reason :: string

record OrchestrationRuntime =
  contract :: OrchestratorContract
  events :: "TransitionEvent list"

text \<open>
  \<^verbatim>\<open>OrchestrationRuntime.transition\<close> mutates \<^verbatim>\<open>self.events\<close> and returns or raises:
  the model returns the runtime after the call together with the outcome.
\<close>

definition transition ::
  "OrchestrationRuntime \<Rightarrow> StageId \<Rightarrow> StageId \<Rightarrow> string
     \<Rightarrow> OrchestrationRuntime \<times> (error + StageId)" where
  "transition self current_stage next_stage why =
     (if \<not> can_transition (contract self) current_stage next_stage
      then (self, Inl (ValueError (''invalid transition '' @ stage_str current_stage
                                    @ '' -> '' @ stage_str next_stage)))
      else (self\<lparr>events := events self
                    @ [\<lparr>from_stage = current_stage, to_stage = next_stage, reason = why\<rparr>]\<rparr>,
            Inr next_stage))"

subsection \<open>Model ports, configuration and stores\<close>

text \<open>
  Three functions of the engine rest on \<^verbatim>\<open>hashlib\<close> and on floating-point square
  roots and are parameters of the model: the hexadecimal SHA-1 digest used by
  \<^verbatim>\<open>stable_id\<close>, \<^verbatim>\<open>deterministic_vector(seed, dim=16)\<close>, and \<^verbatim>\<open>cosine_similarity\<close>.
  Every vector of the engine is made by \<^verbatim>\<open>deterministic_vector\<close> with the same
  dimension, so the length check of \<^verbatim>\<open>cosine_similarity\<close> never fails; the type \<open>'v\<close>
  stands for the vectors of that dimension.
\<close>

record 'v ports =
  sha1_hex :: "string \<Rightarrow> string"
  deterministic_vector :: "string \<Rightarrow> 'v"
  cosine_similarity :: "'v \<Rightarrow> 'v \<Rightarrow> rat"

text \<open>
  The fields of \<^verbatim>\<open>RuntimeConfig\<close> that the engine reads. The schema makes both
  top-K values positive and the retry count non-negative.
\<close>

record Config =
  spec_version :: string
  stage2_initial_top_k_windows :: nat
  stage2_validated_top_k_windows :: nat
  stage2_min_validation_confidence :: rat
  sam3_min_mask_confidence :: rat
  sam3_retry_max_attempts :: nat
  max_cross_camera_travel_seconds :: int
  smoothing_window_size :: int
  hysteresis_high :: rat
  hysteresis_low :: rat
  cfg_required_state_keys :: "string list"
  cfg_branching_hooks :: "string list"

text \<open>\<^verbatim>\<open>PipelineStores\<close> with its six stores, the dictionaries in insertion order.\<close>

record 'v PipelineStores =
  frame_index :: "'v KeyframeRecord list"
  window_index :: "(string \<times> 'v) list"
  cache_l1 :: "(string \<times> 'v WindowFeatures) list"
  cache_l2 :: "(string \<times> string list) list"
  cache_hits :: nat
  cache_misses :: nat
  artifacts :: "(string \<times> string) list"
  graph_nodes :: "(string \<times> GraphNode) list"
  graph_edges :: "(string \<times> GraphEdge) list"
  evidence_by_track_id :: "(string \<times> EvidenceRef list) list"

definition new_stores :: "'v PipelineStores" where
  "new_stores =
     \<lparr>frame_index = [], window_index = [], cache_l1 = [], cache_l2 = [], cache_hits = 0,
      cache_misses = 0, artifacts = [], graph_nodes = [], graph_edges = [],
      evidence_by_track_id = []\<rparr>"






definition upsert_node :: "'v PipelineStores \<Rightarrow> GraphNode \<Rightarrow> 'v PipelineStores" where
  "upsert_node st node = st\<lparr>graph_nodes := dict_set (graph_nodes st) (node_id node) node\<rparr>"

definition add_edge :: "'v PipelineStores \<Rightarrow> GraphEdge \<Rightarrow> 'v PipelineStores" where
  "add_edge st edge = st\<lparr>graph_edges := dict_set (graph_edges st) (ge_edge_id edge) edge\<rparr>"

definition evidence_append :: "'v PipelineStores \<Rightarrow> string \<Rightarrow> EvidenceRef \<Rightarrow> 'v PipelineStores" where
  "evidence_append st track_id ev =
     st\<lparr>evidence_by_track_id := setdefault_append (evidence_by_track_id st) track_id ev\<rparr>"

definition evidence_get :: "'v PipelineStores \<Rightarrow> string \<Rightarrow> EvidenceRef list" where
  "evidence_get st track_id =
     (case dict_get (evidence_by_track_id st) track_id of None \<Rightarrow> [] | Some refs \<Rightarrow> refs)"

text \<open>A dictionary comprehension \<^verbatim>\<open>{key(x): x for x in xs}\<close>: a later entry replaces an earlier one.\<close>

definition dict_of :: "('a \<Rightarrow> 'k) \<Rightarrow> 'a list \<Rightarrow> ('k \<times> 'a) list" where
  "dict_of key xs = foldl (\<lambda>d x. dict_set d (key x) x) [] xs"

subsection \<open>Stage 1: activity ingestion\<close>







subsection \<open>Stage 2: retrieval and validation\<close>






text \<open>A loop whose body may raise: the first error ends it.\<close>

fun efoldl :: "('b \<Rightarrow> 'a \<Rightarrow> error + 'b) \<Rightarrow> 'b \<Rightarrow> 'a list \<Rightarrow> error + 'b" where
  "efoldl f acc [] = Inr acc"
| "efoldl f acc (x # xs) = (case f acc x of Inl e \<Rightarrow> Inl e | Inr acc' \<Rightarrow> efoldl f acc' xs)"












subsection \<open>Stage 3: spatial grounding\<close>









subsection \<open>Stages 4 and 5: entity resolution and temporal localization\<close>





subsection \<open>Stage 6: graph memory\<close>

text \<open>
  \<^verbatim>\<open>_build_evidence_refs_for_track\<close>: one new evidence reference is appended to the
  registry under the track id, and the whole tuple that the registry then holds for
  the track is returned.
\<close>

definition build_evidence_refs_for_track ::
  "'v ports \<Rightarrow> Config \<Rightarrow> 'v PipelineStores \<Rightarrow> Tracklet \<Rightarrow> TemporalSegment
     \<Rightarrow> 'v PipelineStores \<times> EvidenceRef list" where
  "build_evidence_refs_for_track P cfg st track segment =
     (let embedding_id =
            (case find (\<lambda>r. kf_clip_id r = tr_clip_id track
                            \<and> seg_t_start segment \<le> kf_timestamp r
                            \<and> kf_timestamp r \<le> seg_t_end segment) (frame_index st) of
               Some r \<Rightarrow> kf_embedding_id r
             | None \<Rightarrow> stable_id (sha1_hex P) ''EMB'' [tr_track_id track, ''fallback'']);
          evidence = \<lparr>ev_clip_id = tr_clip_id track, ev_camera_id = tr_camera_id track,
                      ev_frame_range = (seg_t_start segment, seg_t_end segment),
                      ev_overlay_uri = tr_overlay_uri track, ev_embedding_id = embedding_id,
                      ev_model_version = spec_version cfg\<rparr>;
          st' = evidence_append st (tr_track_id track) evidence
      in (st', evidence_get st' (tr_track_id track)))"

text \<open>The first loop: a node per entity link, and the map from track ids to links.\<close>

definition link_node ::
  "'v PipelineStores \<times> (string \<times> EntityLink) list \<Rightarrow> EntityLink
     \<Rightarrow> 'v PipelineStores \<times> (string \<times> EntityLink) list" where
  "link_node acc link =
     (case acc of (st, entity_by_track) \<Rightarrow>
      let node = \<lparr>node_id = el_entity_id link,
                  node_type = (if el_entity_type link = Person then ''PersonEntityID''
                               else ''ObjectClusterID''),
                  properties = [(''label'', PStr (el_label link)),
                                (''confidence'', PFloat (el_confidence link)),
                                (''resolved'', PBool (el_resolved link))]\<rparr>
      in (upsert_node st node,
          foldl (\<lambda>d track_id. dict_set d track_id link) entity_by_track (el_track_ids link)))"

definition track_nodes :: "'v PipelineStores \<Rightarrow> Tracklet \<Rightarrow> 'v PipelineStores" where
  "track_nodes st track =
     upsert_node
       (upsert_node st
          \<lparr>node_id = tr_track_id track, node_type = ''TrackID'',
           properties = [(''clip_id'', PStr (tr_clip_id track)),
                         (''camera_id'', PStr (tr_camera_id track)),
                         (''label'', PStr (tr_label track))]\<rparr>)
       \<lparr>node_id = tr_camera_id track, node_type = ''CameraID'',
        properties = [(''camera_id'', PStr (tr_camera_id track))]\<rparr>"

text \<open>
  The body of the loop that builds the \<^verbatim>\<open>EXITS\<close> edges. The lookup
  \<^verbatim>\<open>track_by_id[segment.track_id]\<close> is first evaluated inside the comprehension, for a
  tracklet of the clip of the segment.
\<close>

definition exits_edge ::
  "'v ports \<Rightarrow> Config \<Rightarrow> Tracklet list \<Rightarrow> (string \<times> Tracklet) list
     \<Rightarrow> (string \<times> EntityLink) list \<Rightarrow> 'v PipelineStores \<times> GraphEdge list
     \<Rightarrow> TemporalSegment \<Rightarrow> error + 'v PipelineStores \<times> GraphEdge list" where
  "exits_edge P cfg tracklets track_by_id entity_by_track acc segment =
     (case acc of (st, edges) \<Rightarrow>
      case dict_get entity_by_track (seg_track_id segment) of
        None \<Rightarrow> Inr (st, edges)
      | Some person_link \<Rightarrow>
          if el_entity_type person_link \<noteq> Person then Inr (st, edges)
          else
            (case dict_get track_by_id (seg_track_id segment) of
               None \<Rightarrow>
                 if \<exists>track \<in> set tracklets. tr_clip_id track = seg_clip_id segment
                 then Inl (KeyError (seg_track_id segment))
                 else Inr (st, edges)
             | Some seg_track \<Rightarrow>
                 let same_window_object_entities =
                       map (\<lambda>track. dict_get entity_by_track (tr_track_id track))
                           (filter (\<lambda>track. tr_clip_id track = seg_clip_id segment
                                             \<and> tr_window_id track = tr_window_id seg_track
                                             \<and> tr_entity_type track = Object) tracklets)
                 in case find (\<lambda>l. case l of None \<Rightarrow> False
                                           | Some link \<Rightarrow> el_entity_type link = Object)
                              same_window_object_entities of
                      Some (Some object_link) \<Rightarrow>
                        (case build_evidence_refs_for_track P cfg st seg_track segment of
                           (st', evidence_refs) \<Rightarrow>
                             let edge =
                                   \<lparr>ge_edge_id = stable_id (sha1_hex P) ''EDGE''
                                       [''EXITS'', el_entity_id person_link,
                                        el_entity_id object_link, seg_segment_id segment],
                                    ge_edge_type = EXITS,
                                    ge_source_id = el_entity_id person_link,
                                    ge_target_id = el_entity_id object_link,
                                    ge_t_start = seg_t_start segment,
                                    ge_t_end = seg_t_end segment,
                                    ge_camera_id = seg_camera_id segment,
                                    ge_confidence = seg_confidence segment,
                                    ge_evidence_refs = evidence_refs\<rparr>
                             in Inr (add_edge st' edge, edges @ [edge]))
                    | _ \<Rightarrow> Inr (st, edges)))"

text \<open>The body of the inner loop that builds the \<^verbatim>\<open>MOVES_TO\<close> edges of one link.\<close>

definition moves_to_edge ::
  "'v ports \<Rightarrow> Config \<Rightarrow> EntityLink \<Rightarrow> 'v PipelineStores \<times> GraphEdge list
     \<Rightarrow> Tracklet \<times> Tracklet \<Rightarrow> 'v PipelineStores \<times> GraphEdge list" where
  "moves_to_edge P cfg link acc pair =
     (case (acc, pair) of ((st, edges), (prev, cur)) \<Rightarrow>
      case build_evidence_refs_for_track P cfg st cur
             \<lparr>seg_segment_id = stable_id (sha1_hex P) ''TMPSEG'' [tr_track_id cur],
              seg_clip_id = tr_clip_id cur, seg_camera_id = tr_camera_id cur,
              seg_track_id = tr_track_id cur, seg_action = ''moves_to_camera'',
              seg_t_start = tr_t_start cur, seg_t_end = tr_t_end cur,
              seg_confidence = 8 / 10, seg_failure_flags = []\<rparr> of
        (st', evidence_refs) \<Rightarrow>
          let edge = \<lparr>ge_edge_id = stable_id (sha1_hex P) ''EDGE''
                        [''MOVES_TO'', el_entity_id link, tr_camera_id cur, tr_track_id cur],
                      ge_edge_type = MOVES_TO,
                      ge_source_id = el_entity_id link,
                      ge_target_id = tr_camera_id cur,
                      ge_t_start = tr_t_start cur,
                      ge_t_end = tr_t_end cur,
                      ge_camera_id = tr_camera_id cur,
                      ge_confidence = (if el_resolved link then 8 / 10 else 45 / 100),
                      ge_evidence_refs = evidence_refs\<rparr>
          in (add_edge st' edge, edges @ [edge]))"

definition moves_to_edges ::
  "'v ports \<Rightarrow> Config \<Rightarrow> (string \<times> Tracklet) list \<Rightarrow> 'v PipelineStores \<times> GraphEdge list
     \<Rightarrow> EntityLink \<Rightarrow> 'v PipelineStores \<times> GraphEdge list" where
  "moves_to_edges P cfg track_by_id acc link =
     (if el_entity_type link \<noteq> Person then acc
      else let linked_tracks =
                 sort_key (\<lambda>item. (tr_t_start item, tr_camera_id item))
                   (concat (map (\<lambda>track_id. case dict_get track_by_id track_id of
                                                None \<Rightarrow> [] | Some track \<Rightarrow> [track])
                                (el_track_ids link)))
           in foldl (moves_to_edge P cfg link) acc (zip linked_tracks (tl linked_tracks)))"

definition stage_6_graph_memory ::
  "'v ports \<Rightarrow> Config \<Rightarrow> 'v PipelineStores \<Rightarrow> QueryRequest \<Rightarrow> Tracklet list \<Rightarrow> EntityLink list
     \<Rightarrow> TemporalSegment list \<Rightarrow> error + 'v PipelineStores \<times> GraphNode list \<times> GraphEdge list" where
  "stage_6_graph_memory P cfg st request tracklets entity_links temporal_segments =
     (let track_by_id = dict_of tr_track_id tracklets;
          (st1, entity_by_track) = foldl link_node (st, []) entity_links;
          st2 = foldl track_nodes st1 tracklets
      in case efoldl (exits_edge P cfg tracklets track_by_id entity_by_track) (st2, [])
                     temporal_segments of
           Inl e \<Rightarrow> Inl e
         | Inr acc \<Rightarrow>
             (case foldl (moves_to_edges P cfg track_by_id) acc entity_links of
                (st3, edges) \<Rightarrow> Inr (st3, map snd (graph_nodes st3), edges)))"

subsection \<open>Stage 7: synthesis\<close>

definition edge_claim :: "'v ports \<Rightarrow> GraphEdge \<Rightarrow> ClaimRecord" where
  "edge_claim P edge =
     \<lparr>cl_claim_id = stable_id (sha1_hex P) ''CLAIM'' [ge_edge_id edge],
      cl_text = (if ge_edge_type edge = EXITS
                 then ''Person entity '' @ ge_source_id edge @ '' exited object entity ''
                      @ ge_target_id edge @ '' at camera '' @ ge_camera_id edge
                      @ '' between '' @ str_int (ge_t_start edge) @ ''s and ''
                      @ str_int (ge_t_end edge) @ ''s.''
                 else ''Person entity '' @ ge_source_id edge @ '' moved to camera ''
                      @ ge_target_id edge @ '' during '' @ str_int (ge_t_start edge)
                      @ ''s to '' @ str_int (ge_t_end edge) @ ''s.''),
      cl_entity_ids = [ge_source_id edge, ge_target_id edge],
      cl_camera_id = ge_camera_id edge,
      cl_t_start = ge_t_start edge,
      cl_t_end = ge_t_end edge,
      cl_confidence = ge_confidence edge,
      cl_evidence_refs = ge_evidence_refs edge\<rparr>"

definition INSUFFICIENT_EVIDENCE :: string where
  "INSUFFICIENT_EVIDENCE =
     ''Insufficient verified evidence to answer confidently. ''
     @ ''Returning conservative output with uncertainty.''"

text \<open>
  The loop of \<^verbatim>\<open>synthesize\<close> over the claims, with the state
  \<open>(grounded_claims, redacted)\<close>.
\<close>

fun ground_claims :: "ClaimRecord list \<times> nat \<Rightarrow> ClaimRecord list \<Rightarrow> ClaimRecord list \<times> nat" where
  "ground_claims acc [] = acc"
| "ground_claims (grounded_claims, redacted) (claim # rest) =
     (if cl_evidence_refs claim = [] then ground_claims (grounded_claims, redacted + 1) rest
      else ground_claims (grounded_claims @ [claim], redacted) rest)"

definition synthesize :: "string \<Rightarrow> ClaimRecord list \<Rightarrow> SynthesisOutput" where
  "synthesize q cs =
     (case ground_claims ([], 0) cs of (grounded_claims, redacted) \<Rightarrow>
        if grounded_claims = []
        then \<lparr>summary = INSUFFICIENT_EVIDENCE, claims = grounded_claims,
              evidence_appendix = [], redacted_claim_count = redacted\<rparr>
        else \<lparr>summary = join '' '' (map (\<lambda>(idx, claim). str_int (int idx + 1) @ ''. '' @ cl_text claim)
                                         (enumerate 0 grounded_claims)),
              claims = grounded_claims,
              evidence_appendix =
                map (\<lambda>claim. ''claim='' @ cl_claim_id claim @ '' camera='' @ cl_camera_id claim
                               @ '' t=('' @ str_int (cl_t_start claim) @ '','' @ str_int (cl_t_end claim)
                               @ '') evidence='' @ str_int (int (length (cl_evidence_refs claim))))
                    grounded_claims,
              redacted_claim_count = redacted\<rparr>)"

definition stage_7_multimodal_synthesis :: "'v ports \<Rightarrow> string \<Rightarrow> GraphEdge list \<Rightarrow> SynthesisOutput" where
  "stage_7_multimodal_synthesis P q edges = synthesize q (map (edge_claim P) edges)"

subsection \<open>\<^verbatim>\<open>AgenticVideoRAGEngine.run\<close>\<close>


text \<open>The keys of the state dictionary that \<^verbatim>\<open>_new_state\<close> creates and \<^verbatim>\<open>run\<close> fills.\<close>

definition STATE_KEYS :: "string list" where
  "STATE_KEYS = [''query_id'', ''normalized_query'', ''candidate_windows'', ''grounded_tracks'',
                 ''entity_links'', ''temporal_segments'', ''evidence_package'']"




subsection \<open>Notions of the entity-resolution rule\<close>


definition label_group :: "EntityType \<Rightarrow> Tracklet list \<Rightarrow> string \<Rightarrow> Tracklet list" where
  "label_group etype tracklets l =
     filter (\<lambda>t. tr_entity_type t = etype \<and> lower (tr_label t) = l) tracklets"

definition declared_neighbor :: "(string \<rightharpoonup> string list) \<Rightarrow> string \<Rightarrow> string \<Rightarrow> bool" where
  "declared_neighbor topo src dst = (\<exists>ns. topo src = Some ns \<and> dst \<in> set ns)"

definition elapsed_gap :: "Tracklet \<Rightarrow> Tracklet \<Rightarrow> int" where
  "elapsed_gap prev cur = max 0 (tr_t_start cur - tr_t_end prev)"

definition transition_accepted ::
  "(string \<rightharpoonup> string list) \<Rightarrow> int \<Rightarrow> Tracklet \<Rightarrow> Tracklet \<Rightarrow> bool" where
  "transition_accepted topo max_travel prev cur =
     (declared_neighbor topo (tr_camera_id prev) (tr_camera_id cur)
      \<or> elapsed_gap prev cur \<le> max_travel)"

text \<open>A consecutive pair on two different cameras whose transition is not accepted.\<close>

definition rejected :: "(string \<rightharpoonup> string list) \<Rightarrow> int \<Rightarrow> Tracklet \<Rightarrow> Tracklet \<Rightarrow> bool" where
  "rejected topo max_travel prev cur =
     (tr_camera_id prev \<noteq> tr_camera_id cur \<and> \<not> transition_accepted topo max_travel prev cur)"

definition no_rejected_transition ::
  "(string \<rightharpoonup> string list) \<Rightarrow> int \<Rightarrow> Tracklet list \<Rightarrow> bool" where
  "no_rejected_transition topo max_travel s =
     (\<forall>i. Suc i < length s \<longrightarrow> \<not> rejected topo max_travel (s ! i) (s ! Suc i))"

definition object_link :: "(string \<Rightarrow> string) \<Rightarrow> Tracklet list \<Rightarrow> string \<Rightarrow> EntityLink" where
  "object_link sha1 tracklets l =
     \<lparr>el_entity_id = stable_id sha1 ''OBJ'' [l], el_entity_type = Object, el_label = l,
      el_track_ids = sort (map tr_track_id (label_group Object tracklets l)),
      el_confidence = 83 / 100, el_resolved = True\<rparr>"

definition person_link ::
  "(string \<Rightarrow> string) \<Rightarrow> Tracklet list \<Rightarrow> (string \<rightharpoonup> string list) \<Rightarrow> int \<Rightarrow> string
     \<Rightarrow> EntityLink" where
  "person_link sha1 tracklets topo max_travel l =
     (let s = sort_key (\<lambda>t. (tr_t_start t, tr_camera_id t)) (label_group Person tracklets l);
          ok = no_rejected_transition topo max_travel s
      in \<lparr>el_entity_id = stable_id sha1 ''PER'' [l], el_entity_type = Person, el_label = l,
          el_track_ids = sort (map tr_track_id s),
          el_confidence = (if ok then 87 / 100 else 46 / 100), el_resolved = ok\<rparr>)"

subsection \<open>Maximal runs of a set of timestamps\<close>

text \<open>
  The pairs \<open>(a, b)\<close> such that every integer from \<open>a\<close> to \<open>b\<close> is in \<open>S\<close> and neither
  \<open>a - 1\<close> nor \<open>b + 1\<close> is.
\<close>

definition maximal_runs :: "int set \<Rightarrow> (int \<times> int) set" where
  "maximal_runs S = {(a, b). a \<le> b \<and> {a..b} \<subseteq> S \<and> a - 1 \<notin> S \<and> b + 1 \<notin> S}"

subsection \<open>Evidenced edges\<close>

definition evidenced :: "GraphEdge list \<Rightarrow> bool" where
  "evidenced edges = (\<forall>e \<in> set edges. ge_evidence_refs e \<noteq> [])"

subsection \<open>Cache counters\<close>



subsection \<open>Fixtures\<close>




definition mk_frame :: "int \<Rightarrow> string list \<Rightarrow> string list \<Rightarrow> rat \<Rightarrow> FrameObservation" where
  "mk_frame ts objs acts bg =
     \<lparr>timestamp = ts, objects = objs, actions = acts, background_motion = bg\<rparr>"

definition static_clip :: "string \<Rightarrow> string \<Rightarrow> FrameObservation list \<Rightarrow> Clip" where
  "static_clip cid camera fs =
     \<lparr>clip_id = cid, camera_id = camera, camera_type = Static, location = Exterior,
      duration_seconds = 60, frames = fs,
      metadata = \<lparr>has_motion_vectors = False, active_windows = None\<rparr>\<rparr>"

text \<open>A clip whose only labelled frame shows a dog.\<close>

definition dog_frame :: FrameObservation where
  "dog_frame = mk_frame 3 [''dog''] [] (1 / 10)"

definition dog_clip :: Clip where
  "dog_clip = static_clip ''clip_dog'' ''cam_1'' [mk_frame 2 [] [] (1 / 10), dog_frame]"

text \<open>A clip with activity at the seconds 3 to 5 and 9.\<close>

definition yard_clip :: Clip where
  "yard_clip = static_clip ''clip_yard'' ''cam_1''
     [mk_frame 9 [''red_suv''] [] (1 / 10),
      mk_frame 2 [] [] (1 / 10),
      mk_frame 3 [''Person_p1''] [] (1 / 10),
      mk_frame 4 [] [''person_walks''] (1 / 10),
      mk_frame 5 [''red_suv'', ''person_p1''] [''person_exits_suv''] (1 / 10),
      mk_frame 6 [''dog''] [] (1 / 10)]"




text \<open>
  Stand-ins for the three ports: the digest of a text is its reversal, the vector of a
  seed is the seed, and every similarity is 0.
\<close>

definition demo_ports :: "string ports" where
  "demo_ports = \<lparr>sha1_hex = rev, deterministic_vector = (\<lambda>seed. seed),
                  cosine_similarity = (\<lambda>a b. 0)\<rparr>"

definition demo_config :: Config where
  "demo_config =
     \<lparr>spec_version = ''1.0'', stage2_initial_top_k_windows = 8,
      stage2_validated_top_k_windows = 3, stage2_min_validation_confidence = 62 / 100,
      sam3_min_mask_confidence = 1 / 2, sam3_retry_max_attempts = 2,
      max_cross_camera_travel_seconds = 60, smoothing_window_size = 1,
      hysteresis_high = 6 / 10, hysteresis_low = 3 / 10,
      cfg_required_state_keys = STATE_KEYS,
      cfg_branching_hooks = [''low_mask_confidence'']\<rparr>"

text \<open>One clip with a single frame in which a person leaves a red SUV.\<close>

definition drive_clip :: Clip where
  "drive_clip = static_clip ''clip_drive'' ''cam_1''
     [mk_frame 1 [''red_suv'', ''person_p1''] [''person_exits_suv''] (1 / 10)]"

definition drive_request :: QueryRequest where
  "drive_request = \<lparr>query_id = ''q1'', query_text = ''who exits the suv'',
     clips = [drive_clip], camera_topology = Map.empty\<rparr>"


text \<open>The two tracklets of one window of \<open>drive_clip\<close>, with their links and a segment.\<close>

definition drive_tracklets :: "Tracklet list" where
  "drive_tracklets =
     [\<lparr>tr_track_id = ''TRACK_suv'', tr_clip_id = ''clip_drive'', tr_camera_id = ''cam_1'',
       tr_window_id = ''WIN_1'', tr_entity_type = Object, tr_label = ''red_suv'',
       tr_t_start = 1, tr_t_end = 1, tr_mask_confidence = 88 / 100,
       tr_overlay_uri = ''overlay://clip_drive/TRACK_suv.json''\<rparr>,
      \<lparr>tr_track_id = ''TRACK_p1'', tr_clip_id = ''clip_drive'', tr_camera_id = ''cam_1'',
       tr_window_id = ''WIN_1'', tr_entity_type = Person, tr_label = ''person_p1'',
       tr_t_start = 1, tr_t_end = 1, tr_mask_confidence = 86 / 100,
       tr_overlay_uri = ''overlay://clip_drive/TRACK_p1.json''\<rparr>]"

definition drive_links :: "EntityLink list" where
  "drive_links = resolve rev drive_tracklets Map.empty 60"

definition drive_segments :: "TemporalSegment list" where
  "drive_segments =
     [\<lparr>seg_segment_id = ''SEG_1'', seg_clip_id = ''clip_drive'', seg_camera_id = ''cam_1'',
       seg_track_id = ''TRACK_p1'', seg_action = ''tracked_activity'', seg_t_start = 1,
       seg_t_end = 1, seg_confidence = 1, seg_failure_flags = []\<rparr>]"



section \<open>Properties\<close>

subsection \<open>Query decomposition\<close>

lemma decompose_shape:
  "decompose q = [q] \<or> (\<exists>rest. decompose q = q # rest)"
  by (simp add: decompose_def Let_def)

lemma py_index_in_range:
  "0 \<le> i \<Longrightarrow> i < int (length xs) \<Longrightarrow> py_index xs i = Inr (xs ! nat i)"
  by (simp add: py_index_def)

text \<open>
  C10. For every query text, \<^verbatim>\<open>QueryDecomposer.decompose\<close> returns a non-empty list whose
  first element is the query text itself, and for every attempt number of the stage-3
  retry loop the lookup \<^verbatim>\<open>variants[min(attempt, len(variants) - 1)]\<close> succeeds: it
  returns a member of the list and never raises.
\<close>

theorem decompose_nonempty_variant_lookup:
  "decompose q \<noteq> []
   \<and> hd (decompose q) = q
   \<and> (\<exists>v. query_variant (decompose q) attempt = Inr v \<and> v \<in> set (decompose q))"
proof -
  let ?xs = "decompose q"
  let ?i = "min (int attempt) (int (length ?xs) - 1)"
  obtain rest where d: "?xs = q # rest"
    using decompose_shape [of q] by auto
  have lo: "0 \<le> ?i" and hi: "?i < int (length ?xs)"
    by (simp_all add: d)
  have "query_variant ?xs attempt = Inr (?xs ! nat ?i)"
    unfolding query_variant_def by (rule py_index_in_range [OF lo hi])
  moreover have "?xs ! nat ?i \<in> set ?xs"
    using lo hi by (intro nth_mem) linarith
  ultimately show ?thesis
    using d by simp
qed

subsection \<open>Stage 1: meaningful frames and active windows\<close>

lemma spans_loop_acc: "spans_loop start fin acc vs = acc @ spans_loop start fin [] vs"
proof (induction vs arbitrary: start fin acc)
  case Nil
  then show ?case by simp
next
  case (Cons v vs)
  show ?case
  proof (cases "v = fin + 1")
    case True
    then show ?thesis using Cons.IH [of start v acc] by simp
  next
    case False
    then show ?thesis
      using Cons.IH [of v v "acc @ [(start, fin)]"] Cons.IH [of v v "[(start, fin)]"] by simp
  qed
qed

lemma maximal_runs_empty: "maximal_runs {} = {}"
  by (auto simp: maximal_runs_def)

lemma maximal_runs_interval:
  assumes "a \<le> b"
  shows "maximal_runs {a..b} = {(a, b)}"
proof (rule set_eqI)
  fix p :: "int \<times> int"
  obtain c d where p: "p = (c, d)" by (cases p)
  show "p \<in> maximal_runs {a..b} \<longleftrightarrow> p \<in> {(a, b)}"
  proof
    assume "p \<in> maximal_runs {a..b}"
    then have cd: "c \<le> d" and sub: "{c..d} \<subseteq> {a..b}"
      and lo: "c - 1 \<notin> {a..b}" and hi: "d + 1 \<notin> {a..b}"
      by (simp_all add: p maximal_runs_def)
    from cd sub have "c \<in> {a..b}" "d \<in> {a..b}" by auto
    with lo hi have "c = a" "d = b" by auto
    then show "p \<in> {(a, b)}" by (simp add: p)
  next
    assume "p \<in> {(a, b)}"
    then show "p \<in> maximal_runs {a..b}" using assms by (simp add: p maximal_runs_def)
  qed
qed

lemma gap_no_straddle:
  fixes A B :: "int set"
  assumes gap: "\<forall>x \<in> A. \<forall>y \<in> B. x + 1 < y"
    and sub: "{a..b} \<subseteq> A \<union> B" and x: "x \<in> A" "a \<le> x" and z: "x \<le> z" "z \<le> b"
  shows "z \<in> A"
  using z
proof (induction z rule: int_ge_induct)
  case base
  then show ?case using x by simp
next
  case (step i)
  then have iA: "i \<in> A" by simp
  have "a \<le> i + 1" "i + 1 \<le> b" using step x by auto
  then have "i + 1 \<in> A \<union> B" using sub by auto
  moreover have "i + 1 \<notin> B" using gap iA by force
  ultimately show ?case by blast
qed

lemma maximal_runs_Un:
  fixes A B :: "int set"
  assumes gap: "\<forall>x \<in> A. \<forall>y \<in> B. x + 1 < y"
  shows "maximal_runs (A \<union> B) = maximal_runs A \<union> maximal_runs B"
proof (rule set_eqI)
  fix p :: "int \<times> int"
  obtain c d where p: "p = (c, d)" by (cases p)
  show "p \<in> maximal_runs (A \<union> B) \<longleftrightarrow> p \<in> maximal_runs A \<union> maximal_runs B"
  proof
    assume "p \<in> maximal_runs (A \<union> B)"
    then have cd: "c \<le> d" and sub: "{c..d} \<subseteq> A \<union> B"
      and lo: "c - 1 \<notin> A \<union> B" and hi: "d + 1 \<notin> A \<union> B"
      by (simp_all add: p maximal_runs_def)
    show "p \<in> maximal_runs A \<union> maximal_runs B"
    proof (cases "c \<in> A")
      case True
      have "{c..d} \<subseteq> A"
      proof
        fix z assume "z \<in> {c..d}"
        then show "z \<in> A" using gap_no_straddle [OF gap sub True, of z] by simp
      qed
      with cd lo hi show ?thesis by (simp add: p maximal_runs_def)
    next
      case False
      with cd sub have cB: "c \<in> B" by auto
      have "{c..d} \<subseteq> B"
      proof
        fix z assume z: "z \<in> {c..d}"
        have "z \<notin> A"
        proof
          assume "z \<in> A"
          with gap cB have "z + 1 < c" by blast
          with z show False by simp
        qed
        with z sub show "z \<in> B" by auto
      qed
      with cd lo hi show ?thesis by (simp add: p maximal_runs_def)
    qed
  next
    assume "p \<in> maximal_runs A \<union> maximal_runs B"
    then consider (A) "p \<in> maximal_runs A" | (B) "p \<in> maximal_runs B" by blast
    then show "p \<in> maximal_runs (A \<union> B)"
    proof cases
      case A
      then have cd: "c \<le> d" and sub: "{c..d} \<subseteq> A" and lo: "c - 1 \<notin> A" and hi: "d + 1 \<notin> A"
        by (simp_all add: p maximal_runs_def)
      from cd sub have cA: "c \<in> A" and dA: "d \<in> A" by auto
      have "c - 1 \<notin> B" using gap cA by force
      moreover have "d + 1 \<notin> B" using gap dA by force
      ultimately show ?thesis using cd sub lo hi by (auto simp: p maximal_runs_def)
    next
      case B
      then have cd: "c \<le> d" and sub: "{c..d} \<subseteq> B" and lo: "c - 1 \<notin> B" and hi: "d + 1 \<notin> B"
        by (simp_all add: p maximal_runs_def)
      from cd sub have cB: "c \<in> B" and dB: "d \<in> B" by auto
      have "c - 1 \<notin> A" using gap cB by force
      moreover have "d + 1 \<notin> A" using gap dB by force
      ultimately show ?thesis using cd sub lo hi by (auto simp: p maximal_runs_def)
    qed
  qed
qed

lemma spans_loop_runs:
  "sorted_wrt (<) (fin # vs) \<Longrightarrow> start \<le> fin \<Longrightarrow>
   set (spans_loop start fin [] vs) = maximal_runs ({start..fin} \<union> set vs)
   \<and> sorted_wrt (<) (map fst (spans_loop start fin [] vs))
   \<and> (\<forall>p \<in> set (spans_loop start fin [] vs). start \<le> fst p)"
proof (induction vs arbitrary: start fin)
  case Nil
  then show ?case by (simp add: maximal_runs_interval)
next
  case (Cons v vs)
  from Cons.prems have fv: "fin < v" and srt: "sorted_wrt (<) (v # vs)" by simp_all
  show ?case
  proof (cases "v = fin + 1")
    case True
    have sets: "{start..v} \<union> set vs = {start..fin} \<union> set (v # vs)"
      using True Cons.prems(2) by auto
    have sv: "start \<le> v" using fv Cons.prems(2) by simp
    have loop: "spans_loop start fin [] (v # vs) = spans_loop start v [] vs"
      using True by simp
    show ?thesis
      unfolding loop sets [symmetric] by (rule Cons.IH [OF srt sv])
  next
    case False
    have gap: "\<forall>x \<in> {start..fin}. \<forall>y \<in> set (v # vs). x + 1 < y"
      using False fv srt by auto
    have loop: "spans_loop start fin [] (v # vs) = (start, fin) # spans_loop v v [] vs"
      using False spans_loop_acc [of v v "[(start, fin)]" vs] by simp
    from Cons.IH [of v v] srt
    have ih: "set (spans_loop v v [] vs) = maximal_runs ({v..v} \<union> set vs)"
      "sorted_wrt (<) (map fst (spans_loop v v [] vs))"
      "\<forall>p \<in> set (spans_loop v v [] vs). v \<le> fst p"
      by simp_all
    have "maximal_runs ({start..fin} \<union> set (v # vs))
            = {(start, fin)} \<union> maximal_runs ({v..v} \<union> set vs)"
      using maximal_runs_Un [OF gap] maximal_runs_interval [OF Cons.prems(2)] by simp
    then have 1: "set (spans_loop start fin [] (v # vs)) = maximal_runs ({start..fin} \<union> set (v # vs))"
      using ih(1) loop by simp
    have 2: "sorted_wrt (<) (map fst (spans_loop start fin [] (v # vs)))"
      using ih(2) ih(3) fv Cons.prems(2) loop by fastforce
    have 3: "\<forall>p \<in> set (spans_loop start fin [] (v # vs)). start \<le> fst p"
      using ih(3) fv Cons.prems(2) loop by fastforce
    from 1 2 3 show ?thesis by blast
  qed
qed

lemma contiguous_spans_runs:
  "set (contiguous_spans ts) = maximal_runs (set ts)
   \<and> sorted_wrt (<) (map fst (contiguous_spans ts))"
proof (cases "ts = []")
  case True
  then show ?thesis by (simp add: contiguous_spans_def maximal_runs_empty)
next
  case False
  then have "sort (remdups ts) \<noteq> []" by (metis set_empty set_remdups set_sort)
  then obtain first others where so: "sort (remdups ts) = first # others"
    by (cases "sort (remdups ts)") auto
  have "sorted_wrt (<) (sort (remdups ts))"
    by (simp add: strict_sorted_iff)
  then have srt: "sorted_wrt (<) (first # others)" by (simp add: so)
  have "set (first # others) = set ts" by (metis so set_remdups set_sort)
  then have sets: "{first..first} \<union> set others = set ts" by auto
  have cs: "contiguous_spans ts = spans_loop first first [] others"
    using False by (simp add: contiguous_spans_def so)
  from spans_loop_runs [OF srt, of first] show ?thesis
    unfolding cs sets by simp
qed


text \<open>
  C7 (as stated, refuted). The claim flags a frame exactly when it has semantic tokens.
  The frame of \<open>dog_clip\<close> at second 3 has the semantic token \<open>dog\<close>, the clip takes the
  route \<^verbatim>\<open>cv_state\<close>, and no timestamp is flagged: the clip has no active window.
\<close>

theorem semantic_tokens_not_meaningful_counterexample:
  "choose_route dog_clip = cv_state
   \<and> dog_frame \<in> set (frames dog_clip)
   \<and> frame_tokens dog_frame = [''dog'']
   \<and> \<not> meaningful cv_state dog_frame
   \<and> extract_active_windows dog_clip cv_state = []"
  by code_simp

text \<open>
  C7 (amended). For every clip and every route other than \<^verbatim>\<open>meta_sync\<close>, a frame's
  timestamp is flagged meaningful exactly when the frame has a semantic signal, that is
  at least one action label or one of the substrings \<^verbatim>\<open>suv\<close>, \<^verbatim>\<open>person\<close>, \<^verbatim>\<open>vehicle\<close>,
  \<^verbatim>\<open>car\<close>, \<^verbatim>\<open>truck\<close> in its lowercased, space-joined object labels (and, for the route
  \<^verbatim>\<open>bg_motion_trigger\<close>, a background motion above 0.4); the active windows of the clip,
  each with the reason \<^verbatim>\<open>activity_detected\<close>, are exactly the maximal integer-adjacent
  runs of the flagged timestamps, in increasing order and without repetition.
\<close>

theorem active_windows_maximal_runs:
  "route_id \<noteq> meta_sync \<Longrightarrow>
   \<exists>spans.
     extract_active_windows clip route_id
       = map (\<lambda>(a, b). (a, b, ''activity_detected'')) spans
     \<and> set spans
       = maximal_runs {timestamp f | f.
           f \<in> set (frames clip)
           \<and> (actions f \<noteq> []
              \<or> (\<exists>token \<in> {''suv'', ''person'', ''vehicle'', ''car'', ''truck''}.
                    contains (lower (join '' '' (objects f))) token))
           \<and> (route_id = bg_motion_trigger \<longrightarrow> 4 / 10 < background_motion f)}
     \<and> sorted_wrt (<) (map fst spans)"
proof -
  assume route: "route_id \<noteq> meta_sync"
  let ?ts = "map timestamp (filter (meaningful route_id) (frames clip))"
  have ex: "extract_active_windows clip route_id
              = map (\<lambda>(a, b). (a, b, ''activity_detected'')) (contiguous_spans ?ts)"
    using route by (simp add: extract_active_windows_def activity_windows_def)
  have "set ?ts = {timestamp f | f.
           f \<in> set (frames clip)
           \<and> (actions f \<noteq> []
              \<or> (\<exists>token \<in> {''suv'', ''person'', ''vehicle'', ''car'', ''truck''}.
                    contains (lower (join '' '' (objects f))) token))
           \<and> (route_id = bg_motion_trigger \<longrightarrow> 4 / 10 < background_motion f)}"
    by (auto simp: meaningful_def has_semantic_signal_def)
  then have runs: "set (contiguous_spans ?ts) = maximal_runs {timestamp f | f.
           f \<in> set (frames clip)
           \<and> (actions f \<noteq> []
              \<or> (\<exists>token \<in> {''suv'', ''person'', ''vehicle'', ''car'', ''truck''}.
                    contains (lower (join '' '' (objects f))) token))
           \<and> (route_id = bg_motion_trigger \<longrightarrow> 4 / 10 < background_motion f)}"
    using contiguous_spans_runs [of ?ts] by (simp only:)
  have srt: "sorted_wrt (<) (map fst (contiguous_spans ?ts))"
    using contiguous_spans_runs [of ?ts] by (rule conjunct2)
  show ?thesis
    by (rule exI [of _ "contiguous_spans ?ts"]) (intro conjI ex runs srt)
qed

theorem active_windows_maximal_runs_witness:
  "cv_state \<noteq> meta_sync
   \<and> extract_active_windows yard_clip cv_state
       = [(3, 5, ''activity_detected''), (9, 9, ''activity_detected'')]
   \<and> (\<exists>spans.
     extract_active_windows yard_clip cv_state
       = map (\<lambda>(a, b). (a, b, ''activity_detected'')) spans
     \<and> set spans
       = maximal_runs {timestamp f | f.
           f \<in> set (frames yard_clip)
           \<and> (actions f \<noteq> []
              \<or> (\<exists>token \<in> {''suv'', ''person'', ''vehicle'', ''car'', ''truck''}.
                    contains (lower (join '' '' (objects f))) token))
           \<and> (cv_state = bg_motion_trigger \<longrightarrow> 4 / 10 < background_motion f)}
     \<and> sorted_wrt (<) (map fst spans))"
proof -
  have v: "extract_active_windows yard_clip cv_state
             = [(3, 5, ''activity_detected''), (9, 9, ''activity_detected'')]"
    by code_simp
  have r: "cv_state \<noteq> meta_sync" by simp
  from active_windows_maximal_runs [OF r, of yard_clip] v r show ?thesis by blast
qed

subsection \<open>Cross-camera entity resolution\<close>















subsection \<open>Stage 5: hysteresis spans\<close>

lemma walk_skip:
  "\<forall>p \<in> set pre. snd p < high \<Longrightarrow>
   spans_walk high low (False, cs, scs, sp) (pre @ rest)
     = spans_walk high low (False, cs, scs, sp) rest"
proof (induction pre)
  case Nil
  then show ?case by simp
next
  case (Cons p pre)
  obtain t s where p: "p = (t, s)" by (cases p)
  from Cons.prems have "s < high" by (simp add: p)
  with Cons show ?case by (simp add: p)
qed



lemma walk_close:
  "s1 < low \<Longrightarrow>
   spans_walk high low (True, cs, scs, sp) ((t1, s1) # rest)
     = spans_walk high low (False, cs, [], sp @ [(cs, t1, mean scs)]) rest"
  by simp


lemma walk_no_open:
  "\<forall>p \<in> set zs. snd p < high \<Longrightarrow>
   spans_walk high low (False, cs, scs, sp) zs = (False, cs, scs, sp)"
  using walk_skip [of zs high low cs scs sp "[]"] by simp


lemma extract_spans_none:
  assumes "\<forall>p \<in> set (zip timestamps scores). snd p < high"
  shows "extract_spans timestamps scores high low = []"
  using walk_no_open [OF assms] by (simp add: extract_spans_def)





subsection \<open>The run on an empty request\<close>












subsection \<open>Stages 6 and 7: evidence completeness\<close>

lemma efoldl_invariant:
  assumes "efoldl f acc xs = Inr acc'" and "I acc"
    and step: "\<And>a x a'. I a \<Longrightarrow> x \<in> set xs \<Longrightarrow> f a x = Inr a' \<Longrightarrow> I a'"
  shows "I acc'"
  using assms
proof (induction xs arbitrary: acc)
  case Nil
  then show ?case by simp
next
  case (Cons x xs)
  from Cons.prems(1) obtain a where fx: "f acc x = Inr a" and rest: "efoldl f a xs = Inr acc'"
    by (cases "f acc x") simp_all
  have Ia: "I a" by (rule Cons.prems(3) [OF Cons.prems(2) _ fx]) simp
  show ?case
  proof (rule Cons.IH [OF rest Ia])
    fix b y b'
    assume "I b" "y \<in> set xs" "f b y = Inr b'"
    then show "I b'" using Cons.prems(3) [of b y b'] by simp
  qed
qed

lemma foldl_invariant:
  assumes "I acc" and step: "\<And>a x. I a \<Longrightarrow> x \<in> set xs \<Longrightarrow> I (f a x)"
  shows "I (foldl f acc xs)"
  using assms
proof (induction xs arbitrary: acc)
  case Nil
  then show ?case by simp
next
  case (Cons x xs)
  have Ia: "I (f acc x)" by (rule Cons.prems(2) [OF Cons.prems(1)]) simp
  have "I (foldl f (f acc x) xs)"
  proof (rule Cons.IH [OF Ia])
    fix b y
    assume "I b" "y \<in> set xs"
    then show "I (f b y)" using Cons.prems(2) [of b y] by simp
  qed
  then show ?case by simp
qed

lemma setdefault_append_get:
  "\<exists>xs. map_of (setdefault_append d k v) k = Some (xs @ [v])"
  by (induction d) auto

lemma build_evidence_nonempty:
  "snd (build_evidence_refs_for_track P cfg st track segment) \<noteq> []"
proof -
  let ?ev = "\<lambda>eid. \<lparr>ev_clip_id = tr_clip_id track, ev_camera_id = tr_camera_id track,
                      ev_frame_range = (seg_t_start segment, seg_t_end segment),
                      ev_overlay_uri = tr_overlay_uri track, ev_embedding_id = eid,
                      ev_model_version = spec_version cfg\<rparr>"
  have "evidence_get (evidence_append st k v) k \<noteq> []" for k v
    using setdefault_append_get [of "evidence_by_track_id st" k v]
    by (auto simp: evidence_get_def evidence_append_def dict_get_def)
  then show ?thesis
    by (simp add: build_evidence_refs_for_track_def Let_def)
qed


lemma evidenced_snoc: "evidenced edges \<Longrightarrow> ge_evidence_refs e \<noteq> [] \<Longrightarrow> evidenced (edges @ [e])"
  by (simp add: evidenced_def)

lemma exits_edge_evidenced:
  assumes ex: "exits_edge P cfg tracklets track_by_id entity_by_track (st, edges) segment
             = Inr (st', edges')"
    and ev: "evidenced edges"
  shows "evidenced edges'"
proof (cases "dict_get entity_by_track (seg_track_id segment)")
  case None
  with ex ev show ?thesis by (simp add: exits_edge_def)
next
  case (Some person_link)
  note pl = Some
  show ?thesis
  proof (cases "el_entity_type person_link \<noteq> Person")
    case True
    with ex ev pl show ?thesis by (simp add: exits_edge_def)
  next
    case False
    note per = False
    show ?thesis
    proof (cases "dict_get track_by_id (seg_track_id segment)")
      case None
      with ex ev pl per show ?thesis by (simp add: exits_edge_def split: if_splits)
    next
      case (Some seg_track)
      note tr = Some
      let ?same = "map (\<lambda>track. dict_get entity_by_track (tr_track_id track))
                           (filter (\<lambda>track. tr_clip_id track = seg_clip_id segment
                                             \<and> tr_window_id track = tr_window_id seg_track
                                             \<and> tr_entity_type track = Object) tracklets)"
      let ?found = "find (\<lambda>l. case l of None \<Rightarrow> False
                                           | Some link \<Rightarrow> el_entity_type link = Object) ?same"
      show ?thesis
      proof (cases "\<exists>ol. ?found = Some (Some ol)")
        case False
        then have "edges' = edges"
          using ex pl per tr
          by (simp add: exits_edge_def Let_def split: option.splits)
        with ev show ?thesis by simp
      next
        case True
        then obtain ol where f: "?found = Some (Some ol)" by blast
        obtain st1 refs where b: "build_evidence_refs_for_track P cfg st seg_track segment = (st1, refs)"
          by (cases "build_evidence_refs_for_track P cfg st seg_track segment")
        have ne: "refs \<noteq> []" using build_evidence_nonempty [of P cfg st seg_track segment] b by simp
        have "\<exists>e. edges' = edges @ [e] \<and> ge_evidence_refs e = refs"
          using ex pl per tr f b by (auto simp add: exits_edge_def Let_def)
        with ev ne show ?thesis by (auto intro: evidenced_snoc)
      qed
    qed
  qed
qed

lemma moves_to_edge_evidenced:
  assumes "evidenced (snd acc)"
  shows "evidenced (snd (moves_to_edge P cfg link acc pair))"
proof -
  obtain st edges where acc: "acc = (st, edges)" by (cases acc)
  obtain prev cur where pair: "pair = (prev, cur)" by (cases pair)
  let ?seg = "\<lparr>seg_segment_id = stable_id (sha1_hex P) ''TMPSEG'' [tr_track_id cur],
              seg_clip_id = tr_clip_id cur, seg_camera_id = tr_camera_id cur,
              seg_track_id = tr_track_id cur, seg_action = ''moves_to_camera'',
              seg_t_start = tr_t_start cur, seg_t_end = tr_t_end cur,
              seg_confidence = 8 / 10, seg_failure_flags = []\<rparr>"
  obtain st1 refs where b: "build_evidence_refs_for_track P cfg st cur ?seg = (st1, refs)"
    by (cases "build_evidence_refs_for_track P cfg st cur ?seg")
  have ne: "refs \<noteq> []" using build_evidence_nonempty [of P cfg st cur ?seg] b by simp
  have "\<exists>e. snd (moves_to_edge P cfg link acc pair) = edges @ [e] \<and> ge_evidence_refs e = refs"
    using b by (simp add: moves_to_edge_def acc pair Let_def)
  with assms ne show ?thesis by (auto simp: acc intro: evidenced_snoc)
qed

lemma moves_to_edges_evidenced:
  assumes "evidenced (snd acc)"
  shows "evidenced (snd (moves_to_edges P cfg track_by_id acc link))"
proof (cases "el_entity_type link \<noteq> Person")
  case True
  with assms show ?thesis by (simp add: moves_to_edges_def)
next
  case False
  let ?lt = "sort_key (\<lambda>item. (tr_t_start item, tr_camera_id item))
                   (concat (map (\<lambda>track_id. case dict_get track_by_id track_id of
                                                None \<Rightarrow> [] | Some track \<Rightarrow> [track])
                                (el_track_ids link)))"
  have "evidenced (snd (foldl (moves_to_edge P cfg link) acc (zip ?lt (tl ?lt))))"
    by (rule foldl_invariant [where I = "\<lambda>a. evidenced (snd a)", OF assms])
       (rule moves_to_edge_evidenced)
  with False show ?thesis by (simp add: moves_to_edges_def Let_def)
qed

lemma stage_6_evidenced:
  assumes "stage_6_graph_memory P cfg st request tracklets links segs = Inr (st', nodes, edges)"
  shows "evidenced edges"
proof -
  let ?tb = "dict_of tr_track_id tracklets"
  obtain st1 ebt where l: "foldl link_node (st, []) links = (st1, ebt)"
    by (cases "foldl link_node (st, []) links")
  let ?st2 = "foldl track_nodes st1 tracklets"
  obtain acc where
    ex: "efoldl (exits_edge P cfg tracklets ?tb ebt) (?st2, []) segs = Inr acc"
    and mv: "foldl (moves_to_edges P cfg ?tb) acc links = (st', edges)"
  proof (cases "efoldl (exits_edge P cfg tracklets ?tb ebt) (?st2, []) segs")
    case (Inl e)
    with assms l show ?thesis by (simp add: stage_6_graph_memory_def Let_def)
  next
    case (Inr acc)
    with assms l have "foldl (moves_to_edges P cfg ?tb) acc links = (st', edges)"
      by (simp add: stage_6_graph_memory_def Let_def split: prod.splits)
    with Inr that show ?thesis by blast
  qed
  have "evidenced (snd acc)"
  proof (rule efoldl_invariant [OF ex, where I = "\<lambda>a. evidenced (snd a)"])
    show "evidenced (snd (?st2, []))" by (simp add: evidenced_def)
  next
    fix a x a'
    assume "evidenced (snd a)" "exits_edge P cfg tracklets ?tb ebt a x = Inr a'"
    then show "evidenced (snd a')"
      using exits_edge_evidenced [of P cfg tracklets ?tb ebt "fst a" "snd a" x "fst a'" "snd a'"]
      by simp
  qed
  then have "evidenced (snd (foldl (moves_to_edges P cfg ?tb) acc links))"
    by (rule foldl_invariant [where I = "\<lambda>a. evidenced (snd a)"])
       (rule moves_to_edges_evidenced)
  then show ?thesis by (simp add: mv)
qed

lemma ground_claims_eq:
  "ground_claims (g, r) cs
     = (g @ filter (\<lambda>c. cl_evidence_refs c \<noteq> []) cs,
        r + length (filter (\<lambda>c. cl_evidence_refs c = []) cs))"
  by (induction cs arbitrary: g r) auto

lemma synthesize_claims:
  "claims (synthesize q cs) = filter (\<lambda>c. cl_evidence_refs c \<noteq> []) cs"
  "redacted_claim_count (synthesize q cs) = length (filter (\<lambda>c. cl_evidence_refs c = []) cs)"
  by (simp_all add: synthesize_def ground_claims_eq)

text \<open>
  C6. Every edge that stage 6 returns carries a non-empty evidence list; every claim
  kept by \<^verbatim>\<open>synthesize\<close> has a non-empty evidence list, and its redacted-claim count
  is the number of input claims whose evidence list is empty; for the claims that
  stage 7 builds from the edges of stage 6 no claim is dropped and the count is 0.
\<close>

theorem evidence_completeness:
  assumes "stage_6_graph_memory P cfg st request tracklets links segs = Inr (st', nodes, edges)"
  shows "(\<forall>e \<in> set edges. ge_evidence_refs e \<noteq> [])
         \<and> (\<forall>c \<in> set (claims (synthesize q cs)). cl_evidence_refs c \<noteq> [])
         \<and> redacted_claim_count (synthesize q cs)
             = length (filter (\<lambda>c. cl_evidence_refs c = []) cs)
         \<and> claims (stage_7_multimodal_synthesis P q edges) = map (edge_claim P) edges
         \<and> redacted_claim_count (stage_7_multimodal_synthesis P q edges) = 0"
proof -
  have ev: "\<forall>e \<in> set edges. ge_evidence_refs e \<noteq> []"
    using stage_6_evidenced [OF assms] by (simp add: evidenced_def)
  have all: "filter (\<lambda>c. cl_evidence_refs c \<noteq> []) (map (edge_claim P) edges)
               = map (edge_claim P) edges"
    using ev by (simp add: filter_id_conv edge_claim_def)
  have none: "filter (\<lambda>c. cl_evidence_refs c = []) (map (edge_claim P) edges) = []"
    using ev by (simp add: filter_empty_conv edge_claim_def)
  show ?thesis
    using ev by (simp add: synthesize_claims stage_7_multimodal_synthesis_def all none)
qed

theorem evidence_completeness_witness:
  "(case stage_6_graph_memory demo_ports demo_config new_stores drive_request
           drive_tracklets drive_links drive_segments of
      Inl e \<Rightarrow> False
    | Inr (st', nodes, edges) \<Rightarrow>
        length edges = 1
        \<and> (\<forall>e \<in> set edges. ge_evidence_refs e \<noteq> [])
        \<and> claims (stage_7_multimodal_synthesis demo_ports ''who exits the suv'' edges)
            = map (edge_claim demo_ports) edges
        \<and> redacted_claim_count
            (stage_7_multimodal_synthesis demo_ports ''who exits the suv'' edges) = 0)"
proof -
  have run6: "(case stage_6_graph_memory demo_ports demo_config new_stores drive_request
           drive_tracklets drive_links drive_segments of
      Inl e \<Rightarrow> False
    | Inr (st', nodes, edges) \<Rightarrow> length edges = 1)"
    by code_simp
  then obtain st' nodes edges where
    r: "stage_6_graph_memory demo_ports demo_config new_stores drive_request
           drive_tracklets drive_links drive_segments = Inr (st', nodes, edges)"
    and one: "length edges = 1"
    by (auto split: sum.splits)
  from evidence_completeness [OF r, of "''who exits the suv''" "[]"] one
  show ?thesis by (simp add: r)
qed

subsection \<open>Stage 2: the clip fallback\<close>


















subsection \<open>Running a request twice\<close>
















































subsection \<open>Orchestration\<close>

text \<open>
  C4 (as stated, refuted at stage 7). The claim has a self-loop at every stage from
  stage 2 to stage 7; in \<^verbatim>\<open>TRANSITION_GRAPH\<close> stage 7 maps to the empty set.
\<close>

theorem stage_7_self_loop_counterexample:
  "\<not> can_transition \<lparr>required_state_keys = [], branching_hooks = []\<rparr> stage_7 stage_7"
  by (simp add: can_transition_def)

text \<open>
  C4 (amended). In the static transition graph a stage permits a self-loop exactly when
  it is one of stage 2 to stage 6: stage 1 has none, and the terminal stage 7 has no
  outgoing transition at all.
\<close>

theorem self_loop_iff:
  "can_transition c s s = (s \<in> {stage_2, stage_3, stage_4, stage_5, stage_6})"
  by (cases s) (simp_all add: can_transition_def)

text \<open>
  C5. For a pair of stages that the transition graph does not permit,
  \<^verbatim>\<open>OrchestrationRuntime.transition\<close> raises and the runtime, with its event log, is
  exactly as before; for a permitted pair it appends exactly one event, which records
  the pair and the reason, and returns the next stage.
\<close>

theorem transition_log:
  "(\<not> can_transition (contract rt) cur nxt \<longrightarrow>
      (\<exists>e. snd (transition rt cur nxt why) = Inl e) \<and> fst (transition rt cur nxt why) = rt)
   \<and> (can_transition (contract rt) cur nxt \<longrightarrow>
      snd (transition rt cur nxt why) = Inr nxt
      \<and> events (fst (transition rt cur nxt why))
          = events rt @ [\<lparr>from_stage = cur, to_stage = nxt, reason = why\<rparr>]
      \<and> contract (fst (transition rt cur nxt why)) = contract rt)"
  by (simp add: transition_def)

theorem transition_log_witness:
  "\<not> can_transition \<lparr>required_state_keys = [], branching_hooks = []\<rparr> stage_1 stage_3
   \<and> fst (transition \<lparr>contract = \<lparr>required_state_keys = [], branching_hooks = []\<rparr>,
                         events = []\<rparr> stage_1 stage_3 ''invalid'')
       = \<lparr>contract = \<lparr>required_state_keys = [], branching_hooks = []\<rparr>, events = []\<rparr>
   \<and> can_transition \<lparr>required_state_keys = [], branching_hooks = []\<rparr> stage_1 stage_2
   \<and> events (fst (transition \<lparr>contract = \<lparr>required_state_keys = [], branching_hooks = []\<rparr>,
                                 events = []\<rparr> stage_1 stage_2 ''forward''))
       = [\<lparr>from_stage = stage_1, to_stage = stage_2, reason = ''forward''\<rparr>]"
  using transition_log [of "\<lparr>contract = \<lparr>required_state_keys = [], branching_hooks = []\<rparr>,
                             events = []\<rparr>" stage_1 stage_3 "''invalid''"]
        transition_log [of "\<lparr>contract = \<lparr>required_state_keys = [], branching_hooks = []\<rparr>,
                             events = []\<rparr>" stage_1 stage_2 "''forward''"]
  by (simp add: can_transition_def)

end
